theory Spec2Isabelle
  imports Complex_Main
begin

section \<open>Adaptive MIMO equalizer: embedding of the numerical kernel\<close>

text \<open>
  The development embeds \<^verbatim>\<open>mimoAdaptEqualizer\<close>, \<^verbatim>\<open>coreAdaptEq\<close> and the four tap-update
  rules \<^verbatim>\<open>nlmsUp\<close>, \<^verbatim>\<open>ddlmsUp\<close>, \<^verbatim>\<open>cmaUp\<close>, \<^verbatim>\<open>rdeUp\<close> of
  \<^verbatim>\<open>Adaptive equalization.py\<close>.

  Numbers. A complex128 or float64 cell is an exact complex or real number, or
  not-a-number (\<open>None\<close>). Rounding, overflow and underflow are outside the model. With
  exact arithmetic every division by zero of the program is \<open>0/0\<close> (a window of zero norm
  holds only zeros, a constellation of zero mean power holds only zeros), so infinities do
  not arise, and not-a-number is absorbing for \<open>+\<close>, \<open>-\<close>, \<open>*\<close>, \<open>/\<close>, conjugation and
  modulus, as in IEEE arithmetic.

  Arrays. A 2-D array is the list of its rows; a 1-D array is a list. The rows of an array
  have one length, its number of columns (\<open>shape1\<close>); an array without rows is taken to
  have no columns. Indexing out of range raises \<^verbatim>\<open>IndexError\<close> and an operation on
  operands of incompatible shape raises \<^verbatim>\<open>ValueError\<close>, as numpy does; an exception is
  an \<open>Inl\<close> result. The functions are decorated for numba's nopython mode, which leaves
  some index checks out; the model follows the semantics of the Python text.
\<close>

subsection \<open>Scalars with not-a-number\<close>

type_synonym cnum = "complex option"
type_synonym rnum = "real option"

datatype error = IndexError | ValueError | ZeroDivisionError | UnboundLocalError

definition nadd :: "cnum \<Rightarrow> cnum \<Rightarrow> cnum" where
  "nadd a b = (case a of None \<Rightarrow> None | Some u \<Rightarrow> (case b of None \<Rightarrow> None | Some v \<Rightarrow> Some (u + v)))"

definition nsub :: "cnum \<Rightarrow> cnum \<Rightarrow> cnum" where
  "nsub a b = (case a of None \<Rightarrow> None | Some u \<Rightarrow> (case b of None \<Rightarrow> None | Some v \<Rightarrow> Some (u - v)))"

definition nmul :: "cnum \<Rightarrow> cnum \<Rightarrow> cnum" where
  "nmul a b = (case a of None \<Rightarrow> None | Some u \<Rightarrow> (case b of None \<Rightarrow> None | Some v \<Rightarrow> Some (u * v)))"

definition ncnj :: "cnum \<Rightarrow> cnum" where
  "ncnj a = map_option cnj a"

text \<open>\<^verbatim>\<open>np.abs\<close> of a complex cell, and \<^verbatim>\<open>**2\<close> of a real cell.\<close>

definition nabs :: "cnum \<Rightarrow> rnum" where
  "nabs a = map_option cmod a"

definition rsq :: "rnum \<Rightarrow> rnum" where
  "rsq a = map_option (\<lambda>r. r ^ 2) a"

definition rsub :: "rnum \<Rightarrow> rnum \<Rightarrow> rnum" where
  "rsub a b = (case a of None \<Rightarrow> None | Some u \<Rightarrow> (case b of None \<Rightarrow> None | Some v \<Rightarrow> Some (u - v)))"

definition rdiv :: "rnum \<Rightarrow> rnum \<Rightarrow> rnum" where
  "rdiv a b = (case a of None \<Rightarrow> None | Some u \<Rightarrow>
     (case b of None \<Rightarrow> None | Some v \<Rightarrow> if v = 0 then None else Some (u / v)))"

text \<open>A real cell read as a complex one, and a complex cell divided by a real one.\<close>

definition ofr :: "rnum \<Rightarrow> cnum" where
  "ofr a = map_option complex_of_real a"

definition ndivr :: "cnum \<Rightarrow> rnum \<Rightarrow> cnum" where
  "ndivr a b = (case a of None \<Rightarrow> None | Some u \<Rightarrow>
     (case b of None \<Rightarrow> None | Some v \<Rightarrow> if v = 0 then None else Some (u / complex_of_real v)))"

definition nsum :: "cnum list \<Rightarrow> cnum" where
  "nsum xs = foldr nadd xs (Some 0)"

definition rsum :: "rnum list \<Rightarrow> rnum" where
  "rsum xs = foldr (\<lambda>a b. case a of None \<Rightarrow> None | Some u \<Rightarrow> map_option (\<lambda>v. u + v) b) xs (Some 0)"

text \<open>\<^verbatim>\<open>np.mean\<close>: the mean of no values is not-a-number.\<close>

definition rmean :: "rnum list \<Rightarrow> rnum" where
  "rmean xs = rdiv (rsum xs) (Some (real (length xs)))"

text \<open>\<^verbatim>\<open>np.linalg.norm\<close> of a vector.\<close>

definition vnorm :: "cnum list \<Rightarrow> rnum" where
  "vnorm v = map_option sqrt (rsum (map (\<lambda>a. rsq (nabs a)) v))"

subsection \<open>Arrays\<close>

definition shape1 :: "'a list list \<Rightarrow> nat" where
  "shape1 A = (case A of [] \<Rightarrow> 0 | r # _ \<Rightarrow> length r)"

text \<open>An index as numpy resolves it: a negative one counts from the end.\<close>

definition pyIndex :: "nat \<Rightarrow> int \<Rightarrow> error + nat" where
  "pyIndex n i =
     (if 0 \<le> i \<and> i < int n then Inr (nat i)
      else if i < 0 \<and> - int n \<le> i then Inr (nat (int n + i))
      else Inl IndexError)"

fun mapE :: "('a \<Rightarrow> error + 'b) \<Rightarrow> 'a list \<Rightarrow> error + 'b list" where
  "mapE f [] = Inr []"
| "mapE f (a # as) =
     (case f a of Inl e \<Rightarrow> Inl e
      | Inr b \<Rightarrow> (case mapE f as of Inl e \<Rightarrow> Inl e | Inr bs \<Rightarrow> Inr (b # bs)))"

text \<open>\<^verbatim>\<open>A[idx, :]\<close> for an index array \<open>idx\<close>: the rows of \<open>A\<close> that \<open>idx\<close> names.\<close>

definition takeRows :: "'a list list \<Rightarrow> int list \<Rightarrow> error + 'a list list" where
  "takeRows A idx =
     mapE (\<lambda>i. case pyIndex (length A) i of Inl e \<Rightarrow> Inl e | Inr r \<Rightarrow> Inr (A ! r)) idx"

text \<open>\<^verbatim>\<open>A[:, N]\<close>: column \<open>N\<close> of \<open>A\<close>.\<close>

definition column :: "'a list list \<Rightarrow> nat \<Rightarrow> error + 'a list" where
  "column A N = mapE (\<lambda>r. if N < length r then Inr (r ! N) else Inl IndexError) A"

text \<open>\<^verbatim>\<open>np.diag\<close> of a vector.\<close>

definition diagM :: "cnum list \<Rightarrow> cnum list list" where
  "diagM v = map (\<lambda>i. map (\<lambda>j. if i = j then v ! i else Some 0) [0..<length v]) [0..<length v]"

text \<open>The matrix product \<^verbatim>\<open>A @ B\<close>, and \<^verbatim>\<open>A @ v\<close> for a column \<open>v\<close>.\<close>

definition matmul :: "cnum list list \<Rightarrow> cnum list list \<Rightarrow> error + cnum list list" where
  "matmul A B =
     (if shape1 A = length B
      then Inr (map (\<lambda>row. map (\<lambda>k. nsum (map2 (\<lambda>a brow. nmul a (brow ! k)) row B))
                              [0..<shape1 B]) A)
      else Inl ValueError)"

definition matvec :: "cnum list list \<Rightarrow> cnum list \<Rightarrow> error + cnum list" where
  "matvec A v =
     (if shape1 A = length v then Inr (map (\<lambda>row. nsum (map2 nmul row v)) A)
      else Inl ValueError)"

text \<open>
  \<^verbatim>\<open>a - b\<close> for a row \<open>a\<close> and a row \<open>b\<close> under numpy's broadcasting: equal lengths, or
  one of them of length one.
\<close>

definition bsub :: "cnum list \<Rightarrow> cnum list \<Rightarrow> error + cnum list" where
  "bsub a b =
     (if length a = length b then Inr (map2 nsub a b)
      else if length a = 1 then Inr (map (\<lambda>v. nsub (hd a) v) b)
      else if length b = 1 then Inr (map (\<lambda>u. nsub u (hd b)) a)
      else Inl ValueError)"

subsection \<open>The tap update shared by the four rules\<close>

text \<open>
  Each rule ends with the loop
  \<^verbatim>\<open>for N in range(0, nModes):\<close>
  \<^verbatim>\<open>    indUpdTaps = indMode+N*nModes\<close>
  \<^verbatim>\<open>    inAdapt = x[:, N].T\<close> (divided by \<^verbatim>\<open>np.linalg.norm(x[:,N])**2\<close> in \<^verbatim>\<open>nlmsUp\<close>)
  \<^verbatim>\<open>    inAdaptPar = inAdapt.repeat(nModes).reshape(len(x), -1).T\<close>
  \<^verbatim>\<open>    H[indUpdTaps,:] = H[indUpdTaps,:] + mu*errDiag@np.conj(inAdaptPar)\<close>
  where \<open>x\<close> is the input window (one row per tap, one column per mode) and the diagonal
  matrix is \<^verbatim>\<open>errDiag\<close> (NLMS, DDLMS) or \<^verbatim>\<open>prodErrOut\<close> (CMA, RDE). \<open>tapStep\<close> is
  the body, with the diagonal matrix \<open>D\<close> and the treatment \<open>inAdaptOf\<close> of the column as
  parameters; \<open>tapLoop\<close> is the loop.
\<close>

definition indUpdTaps :: "nat \<Rightarrow> nat \<Rightarrow> nat list" where
  "indUpdTaps nModes N = map (\<lambda>j. j + N * nModes) [0..<nModes]"

text \<open>
  \<^verbatim>\<open>inAdapt.repeat(nModes).reshape(len(x), -1).T\<close>: \<open>nModes\<close> rows, each the vector
  \<open>inAdapt\<close>; numpy cannot infer the \<open>-1\<close> dimension when \<open>len(x)\<close> is zero.
\<close>

definition expandPar :: "nat \<Rightarrow> nat \<Rightarrow> cnum list \<Rightarrow> error + cnum list list" where
  "expandPar nModes lenx inAdapt =
     (if lenx = 0 then Inl ValueError else Inr (replicate nModes inAdapt))"

definition scaleM :: "real \<Rightarrow> cnum list list \<Rightarrow> cnum list list" where
  "scaleM mu D = map (map (\<lambda>d. nmul (Some (complex_of_real mu)) d)) D"

text \<open>
  \<^verbatim>\<open>old + M\<close> for \<open>old = H[indUpdTaps,:]\<close>, stored back into \<^verbatim>\<open>H[indUpdTaps,:]\<close>: the
  shapes agree, or \<open>M\<close> has a single column, which numpy repeats along the taps.
\<close>

definition addInc :: "cnum list list \<Rightarrow> cnum list list \<Rightarrow> error + cnum list list" where
  "addInc old M =
     (if length old = length M \<and> (shape1 old = shape1 M \<or> shape1 M = 1)
      then Inr (map2 (\<lambda>row inc.
                  map (\<lambda>k. nadd (row ! k) (inc ! (if shape1 M = 1 then 0 else k)))
                      [0..<length row]) old M)
      else Inl ValueError)"

definition assignRows :: "cnum list list \<Rightarrow> nat list \<Rightarrow> cnum list list \<Rightarrow> cnum list list" where
  "assignRows H idx new = fold (\<lambda>(r, row) A. A[r := row]) (zip idx new) H"

definition tapStep ::
  "real \<Rightarrow> cnum list list \<Rightarrow> (cnum list \<Rightarrow> cnum list) \<Rightarrow> cnum list list \<Rightarrow> nat
     \<Rightarrow> cnum list list \<Rightarrow> nat \<Rightarrow> error + cnum list list" where
  "tapStep mu D inAdaptOf x nModes H N =
     (case column x N of Inl e \<Rightarrow> Inl e
      | Inr c \<Rightarrow>
     (case expandPar nModes (length x) (inAdaptOf c) of Inl e \<Rightarrow> Inl e
      | Inr inAdaptPar \<Rightarrow>
     (case takeRows H (map int (indUpdTaps nModes N)) of Inl e \<Rightarrow> Inl e
      | Inr old \<Rightarrow>
     (case matmul (scaleM mu D) (map (map ncnj) inAdaptPar) of Inl e \<Rightarrow> Inl e
      | Inr M \<Rightarrow>
     (case addInc old M of Inl e \<Rightarrow> Inl e
      | Inr new \<Rightarrow> Inr (assignRows H (indUpdTaps nModes N) new))))))"

fun tapLoop ::
  "(cnum list list \<Rightarrow> nat \<Rightarrow> error + cnum list list) \<Rightarrow> nat list \<Rightarrow> cnum list list
     \<Rightarrow> error + cnum list list" where
  "tapLoop step [] H = Inr H"
| "tapLoop step (N # Ns) H =
     (case step H N of Inl e \<Rightarrow> Inl e | Inr H' \<Rightarrow> tapLoop step Ns H')"

text \<open>\<^verbatim>\<open>np.abs(err)**2\<close>.\<close>

definition absSq :: "cnum list \<Rightarrow> rnum list" where
  "absSq err = map (\<lambda>e. rsq (nabs e)) err"

subsection \<open>NLMS\<close>

text \<open>\<^verbatim>\<open>x[:, N].T/np.linalg.norm(x[:,N])**2\<close>.\<close>

definition nlmsNormalize :: "cnum list \<Rightarrow> cnum list" where
  "nlmsNormalize c = map (\<lambda>a. ndivr a (rsq (vnorm c))) c"

text \<open>
  \<open>dx\<close> is the reference row \<^verbatim>\<open>dx[ind,:]\<close>, \<open>outEq\<close> the column of current outputs
  (\<^verbatim>\<open>outEq.T\<close> is the same cells as a row).
\<close>

text \<open>\<^verbatim>\<open>err = dx - outEq.T\<close>.\<close>

definition nlmsErr :: "cnum list \<Rightarrow> cnum list \<Rightarrow> error + cnum list" where
  "nlmsErr dx outEq = bsub dx outEq"

definition nlmsUp ::
  "cnum list list \<Rightarrow> cnum list \<Rightarrow> cnum list \<Rightarrow> real \<Rightarrow> cnum list list \<Rightarrow> nat
     \<Rightarrow> error + (cnum list list \<times> rnum list)" where
  "nlmsUp x dx outEq mu H nModes =
     (case nlmsErr dx outEq of Inl e \<Rightarrow> Inl e
      | Inr err \<Rightarrow>
     (case tapLoop (tapStep mu (diagM err) nlmsNormalize x nModes) [0..<nModes] H of
        Inl e \<Rightarrow> Inl e
      | Inr H' \<Rightarrow> Inr (H', absSq err)))"

subsection \<open>DDLMS\<close>

text \<open>
  \<^verbatim>\<open>np.argmin\<close>: the first index of the least value; the first not-a-number when there is
  one; \<^verbatim>\<open>ValueError\<close> on an empty array.
\<close>

fun argminFrom :: "nat \<Rightarrow> real \<Rightarrow> nat \<Rightarrow> real list \<Rightarrow> nat" where
  "argminFrom b bv i [] = b"
| "argminFrom b bv i (v # vs) =
     (if v < bv then argminFrom i v (Suc i) vs else argminFrom b bv (Suc i) vs)"

definition argmin :: "rnum list \<Rightarrow> error + nat" where
  "argmin v =
     (case v of [] \<Rightarrow> Inl ValueError
      | a # as \<Rightarrow>
          if None \<in> set v then Inr (length (takeWhile (\<lambda>c. c \<noteq> None) v))
          else Inr (argminFrom 0 (the a) 1 (map the as)))"

definition decide :: "complex list \<Rightarrow> cnum \<Rightarrow> error + cnum" where
  "decide constSymb out =
     (case argmin (map (\<lambda>c. nabs (nsub out (Some c))) constSymb) of
        Inl e \<Rightarrow> Inl e
      | Inr indSymb \<Rightarrow> Inr (Some (constSymb ! indSymb)))"

text \<open>The decisions, and \<^verbatim>\<open>err = decided - outEq\<close>.\<close>

definition ddlmsErr :: "complex list \<Rightarrow> cnum list \<Rightarrow> error + cnum list" where
  "ddlmsErr constSymb outEq =
     (case mapE (decide constSymb) outEq of Inl e \<Rightarrow> Inl e
      | Inr decided \<Rightarrow> Inr (map2 nsub decided outEq))"

definition ddlmsUp ::
  "cnum list list \<Rightarrow> complex list \<Rightarrow> cnum list \<Rightarrow> real \<Rightarrow> cnum list list \<Rightarrow> nat
     \<Rightarrow> error + (cnum list list \<times> rnum list)" where
  "ddlmsUp x constSymb outEq mu H nModes =
     (case ddlmsErr constSymb outEq of Inl e \<Rightarrow> Inl e
      | Inr err \<Rightarrow>
     (case tapLoop (tapStep mu (diagM err) (\<lambda>c. c) x nModes) [0..<nModes] H of
        Inl e \<Rightarrow> Inl e
      | Inr H' \<Rightarrow> Inr (H', absSq err)))"

subsection \<open>CMA\<close>

text \<open>\<open>R\<close> is the row \<^verbatim>\<open>Rcma\<close> of target radii, one per mode.\<close>

text \<open>\<^verbatim>\<open>err = R - np.abs(outEq)**2\<close>.\<close>

definition cmaErr :: "cnum list \<Rightarrow> cnum list \<Rightarrow> error + cnum list" where
  "cmaErr R outEq = bsub R (map (\<lambda>a. ofr (rsq (nabs a))) outEq)"

definition cmaUp ::
  "cnum list list \<Rightarrow> cnum list \<Rightarrow> cnum list \<Rightarrow> real \<Rightarrow> cnum list list \<Rightarrow> nat
     \<Rightarrow> error + (cnum list list \<times> rnum list)" where
  "cmaUp x R outEq mu H nModes =
     (case cmaErr R outEq of Inl e \<Rightarrow> Inl e
      | Inr err \<Rightarrow>
     (case matmul (diagM err) (diagM outEq) of Inl e \<Rightarrow> Inl e
      | Inr prodErrOut \<Rightarrow>
     (case tapLoop (tapStep mu prodErrOut (\<lambda>c. c) x nModes) [0..<nModes] H of
        Inl e \<Rightarrow> Inl e
      | Inr H' \<Rightarrow> Inr (H', absSq err))))"

subsection \<open>RDE\<close>

text \<open>\<open>R\<close> is the array \<^verbatim>\<open>Rrde\<close> of the distinct constellation radii.\<close>

definition decideR :: "real list \<Rightarrow> cnum \<Rightarrow> error + cnum" where
  "decideR R out =
     (case argmin (map (\<lambda>r. map_option (\<lambda>a. \<bar>r - a\<bar>) (nabs out)) R) of
        Inl e \<Rightarrow> Inl e
      | Inr indR \<Rightarrow> Inr (Some (complex_of_real (R ! indR))))"

text \<open>The decided radii, and \<^verbatim>\<open>err = decidedR**2 - np.abs(outEq)**2\<close>.\<close>

definition rdeErr :: "real list \<Rightarrow> cnum list \<Rightarrow> error + cnum list" where
  "rdeErr R outEq =
     (case mapE (decideR R) outEq of Inl e \<Rightarrow> Inl e
      | Inr decidedR \<Rightarrow>
          Inr (map2 (\<lambda>d a. nsub (nmul d d) (ofr (rsq (nabs a)))) decidedR outEq))"

definition rdeUp ::
  "cnum list list \<Rightarrow> real list \<Rightarrow> cnum list \<Rightarrow> real \<Rightarrow> cnum list list \<Rightarrow> nat
     \<Rightarrow> error + (cnum list list \<times> rnum list)" where
  "rdeUp x R outEq mu H nModes =
     (case rdeErr R outEq of Inl e \<Rightarrow> Inl e
      | Inr err \<Rightarrow>
     (case matmul (diagM err) (diagM outEq) of Inl e \<Rightarrow> Inl e
      | Inr prodErrOut \<Rightarrow>
     (case tapLoop (tapStep mu prodErrOut (\<lambda>c. c) x nModes) [0..<nModes] H of
        Inl e \<Rightarrow> Inl e
      | Inr H' \<Rightarrow> Inr (H', absSq err))))"

subsection \<open>Core adaptation engine\<close>

text \<open>
  The four values of \<^verbatim>\<open>alg\<close> that \<^verbatim>\<open>coreAdaptEq\<close> dispatches on:
  \<^verbatim>\<open>'nlms'\<close>, \<^verbatim>\<open>'cma'\<close>, \<^verbatim>\<open>'ddlms'\<close>, \<^verbatim>\<open>'rde'\<close>.
\<close>

datatype alg = NLMS | CMA | DDLMS | RDE

text \<open>
  The arrays the loop writes, in the order \<^verbatim>\<open>coreAdaptEq\<close> returns them:
  \<open>(yEq, H, errSq, Hiter)\<close>.
  \<^item> \<open>yEq ! ind ! j\<close> is \<^verbatim>\<open>yEq[ind, j]\<close>.
  \<^item> \<open>H ! r ! k\<close> is \<^verbatim>\<open>H[r, k]\<close>.
  \<^item> \<open>errSq ! ind ! j\<close> is \<^verbatim>\<open>errSq[j, ind]\<close>. \<^verbatim>\<open>np.empty\<close> allocates the array without
    initialising it; iteration \<open>ind\<close> writes column \<open>ind\<close>, so the model keeps the columns
    written so far, and after the loop the list is the whole array.
  \<^item> \<open>Hiter ! i ! r ! k\<close> is \<^verbatim>\<open>Hiter[r, k, i]\<close>.
\<close>

type_synonym eqState = "cnum list list \<times> cnum list list \<times> rnum list list \<times> cnum list list list"

definition zerosM :: "nat \<Rightarrow> nat \<Rightarrow> cnum list list" where
  "zerosM r c = replicate r (replicate c (Some 0))"

definition hasShape :: "nat \<Rightarrow> nat \<Rightarrow> 'a list list \<Rightarrow> bool" where
  "hasShape r c A = (length A = r \<and> list_all (\<lambda>row. length row = c) A)"

text \<open>\<^verbatim>\<open>indTaps + ind*SpS\<close>.\<close>

definition indIn :: "int \<Rightarrow> int \<Rightarrow> nat \<Rightarrow> int list" where
  "indIn nTaps SpS ind = map (\<lambda>k. int k + int ind * SpS) [0..<nat nTaps]"

text \<open>
  The inner loop
  \<^verbatim>\<open>for N in range(0, nModes):\<close>
  \<^verbatim>\<open>    inEq   = x[indIn, N].reshape(len(indIn), 1)\<close>
  \<^verbatim>\<open>    outEq += H[indMode+N*nModes,:]@inEq\<close>
  over the window \<open>w = x[indIn, :]\<close>.
\<close>

fun outLoop ::
  "cnum list list \<Rightarrow> cnum list list \<Rightarrow> nat \<Rightarrow> nat list \<Rightarrow> cnum list \<Rightarrow> error + cnum list" where
  "outLoop H w nModes [] outEq = Inr outEq"
| "outLoop H w nModes (N # Ns) outEq =
     (case column w N of Inl e \<Rightarrow> Inl e
      | Inr inEq \<Rightarrow>
     (case takeRows H (map int (indUpdTaps nModes N)) of Inl e \<Rightarrow> Inl e
      | Inr rows \<Rightarrow>
     (case matvec rows inEq of Inl e \<Rightarrow> Inl e
      | Inr y \<Rightarrow> outLoop H w nModes Ns (map2 nadd outEq y))))"

text \<open>
  \<^verbatim>\<open>Rcma = (np.mean(np.abs(constSymb)**4)/np.mean(np.abs(constSymb)**2))*np.ones((1, nModes))+1j*0\<close>
  and \<^verbatim>\<open>Rrde = np.unique(np.abs(constSymb))\<close>.
\<close>

definition Rcma :: "complex list \<Rightarrow> nat \<Rightarrow> cnum list" where
  "Rcma constSymb nModes =
     replicate nModes
       (ofr (rdiv (rmean (map (\<lambda>c. Some (cmod c ^ 4)) constSymb))
                  (rmean (map (\<lambda>c. Some (cmod c ^ 2)) constSymb))))"

definition Rrde :: "complex list \<Rightarrow> real list" where
  "Rrde constSymb = sort (remdups (map cmod constSymb))"

text \<open>The dispatch on \<^verbatim>\<open>alg\<close>; \<^verbatim>\<open>dx[ind,:]\<close> is read in the NLMS branch only.\<close>

definition update ::
  "alg \<Rightarrow> cnum list list \<Rightarrow> cnum list list \<Rightarrow> nat \<Rightarrow> complex list \<Rightarrow> cnum list \<Rightarrow> real
     \<Rightarrow> cnum list list \<Rightarrow> nat \<Rightarrow> error + (cnum list list \<times> rnum list)" where
  "update a w dx ind constSymb outEq mu H nModes =
     (case a of
        NLMS \<Rightarrow> (case pyIndex (length dx) (int ind) of Inl e \<Rightarrow> Inl e
                 | Inr r \<Rightarrow> nlmsUp w (dx ! r) outEq mu H nModes)
      | CMA \<Rightarrow> cmaUp w (Rcma constSymb nModes) outEq mu H nModes
      | DDLMS \<Rightarrow> ddlmsUp w constSymb outEq mu H nModes
      | RDE \<Rightarrow> rdeUp w (Rrde constSymb) outEq mu H nModes)"

text \<open>
  \<^verbatim>\<open>Hiter[:,:, i] = H\<close>: position \<open>i\<close> of the last axis must exist and \<open>H\<close> must have the
  shape of a snapshot.
\<close>

definition storeTaps ::
  "cnum list list list \<Rightarrow> int \<Rightarrow> nat \<Rightarrow> nat \<Rightarrow> cnum list list \<Rightarrow> error + cnum list list list" where
  "storeTaps Hiter i r c H =
     (case pyIndex (length Hiter) i of Inl e \<Rightarrow> Inl e
      | Inr k \<Rightarrow> if hasShape r c H then Inr (Hiter[k := H]) else Inl ValueError)"

text \<open>One iteration of \<^verbatim>\<open>for ind in range(0, L)\<close>.\<close>

definition coreStep ::
  "cnum list list \<Rightarrow> cnum list list \<Rightarrow> int \<Rightarrow> real \<Rightarrow> int \<Rightarrow> bool \<Rightarrow> alg \<Rightarrow> complex list
     \<Rightarrow> nat \<Rightarrow> eqState \<Rightarrow> error + eqState" where
  "coreStep x dx SpS mu nTaps storeCoeff a constSymb ind st =
     (case st of (yEq, H, errSq, Hiter) \<Rightarrow>
      let nModes = shape1 x in
     (case takeRows x (indIn nTaps SpS ind) of Inl e \<Rightarrow> Inl e
      | Inr w \<Rightarrow>
     (case outLoop H w nModes [0..<nModes] (replicate nModes (Some 0)) of Inl e \<Rightarrow> Inl e
      | Inr outEq \<Rightarrow>
     (case pyIndex (length yEq) (int ind) of Inl e \<Rightarrow> Inl e
      | Inr p \<Rightarrow>
     (case update a w dx ind constSymb outEq mu H nModes of Inl e \<Rightarrow> Inl e
      | Inr (H', e2) \<Rightarrow>
     (case storeTaps Hiter (if storeCoeff then int ind else 1) (nModes ^ 2) (nat nTaps) H' of
        Inl e \<Rightarrow> Inl e
      | Inr Hiter' \<Rightarrow> Inr (yEq[p := outEq], H', errSq @ [e2], Hiter')))))))"

fun coreLoop :: "(nat \<Rightarrow> eqState \<Rightarrow> error + eqState) \<Rightarrow> nat list \<Rightarrow> eqState \<Rightarrow> error + eqState" where
  "coreLoop step [] st = Inr st"
| "coreLoop step (ind # inds) st =
     (case step ind st of Inl e \<Rightarrow> Inl e | Inr st' \<Rightarrow> coreLoop step inds st')"

text \<open>
  \<^verbatim>\<open>coreAdaptEq\<close>. Allocating \<^verbatim>\<open>errSq\<close> with \<open>L < 0\<close> columns, or \<^verbatim>\<open>Hiter\<close> with
  \<open>nTaps < 0\<close>, raises \<^verbatim>\<open>ValueError\<close>. \<^verbatim>\<open>yEq\<close> is \<^verbatim>\<open>x[0:L]\<close> filled with
  not-a-number. Without \<^verbatim>\<open>storeCoeff\<close> the history has one snapshot.
\<close>

definition coreAdaptEq ::
  "cnum list list \<Rightarrow> cnum list list \<Rightarrow> int \<Rightarrow> cnum list list \<Rightarrow> int \<Rightarrow> real \<Rightarrow> int \<Rightarrow> bool
     \<Rightarrow> alg \<Rightarrow> complex list \<Rightarrow> error + eqState" where
  "coreAdaptEq x dx SpS H L mu nTaps storeCoeff a constSymb =
     (let nModes = shape1 x in
      if L < 0 \<or> nTaps < 0 then Inl ValueError
      else coreLoop (coreStep x dx SpS mu nTaps storeCoeff a constSymb) [0..<nat L]
             (map (\<lambda>row. map (\<lambda>_. None) row) (take (nat L) x), H, [],
              replicate (if storeCoeff then nat L else 1) (zerosM (nModes ^ 2) (nat nTaps))))"

subsection \<open>Equalizer driver\<close>

text \<open>
  The argument of \<^verbatim>\<open>mimoAdaptEqualizer\<close> is a 1-D or a 2-D array. The attributes of
  \<^verbatim>\<open>paramEq\<close> are the fields of a record; an attribute left undefined (\<^verbatim>\<open>H\<close>,
  \<^verbatim>\<open>L\<close>) is the empty list, as \<^verbatim>\<open>getattr\<close> defaults it. The constellation
  \<^verbatim>\<open>constSymb\<close> that the driver obtains from commpy's \<^verbatim>\<open>QAMModem(m=M)\<close> is taken as a
  field in place of \<^verbatim>\<open>M\<close>.
\<close>

datatype 'a ndarray = Arr1 "'a list" | Arr2 "'a list list"

record paramEq =
  p_numIter :: int
  p_nTaps :: int
  p_mu :: real
  p_SpS :: int
  p_H :: "cnum list list"
  p_L :: "int list"
  p_storeCoeff :: bool
  p_alg :: "alg list"
  p_constSymb :: "complex list"

definition len :: "'a ndarray \<Rightarrow> nat" where
  "len a = (case a of Arr1 v \<Rightarrow> length v | Arr2 m \<Rightarrow> length m)"

text \<open>
  \<^verbatim>\<open>try: if x.shape[1] > x.shape[0]: x = x.T\<close>
  \<^verbatim>\<open>except IndexError: x = x.reshape(len(x),1)\<close>
\<close>

definition asColumns :: "'a ndarray \<Rightarrow> 'a list list" where
  "asColumns a =
     (case a of
        Arr1 v \<Rightarrow> map (\<lambda>s. [s]) v
      | Arr2 m \<Rightarrow> if shape1 m > length m then transpose m else m)"

text \<open>\<^verbatim>\<open>np.concatenate((zeroPad, x, zeroPad))\<close> with \<^verbatim>\<open>Lpad = int(np.floor(nTaps/2))\<close>.\<close>

definition padSignal :: "int \<Rightarrow> cnum list list \<Rightarrow> error + cnum list list" where
  "padSignal nTaps x =
     (let nModes = shape1 x; Lpad = nTaps div 2 in
      if Lpad < 0 then Inl ValueError
      else Inr (zerosM (nat Lpad) nModes @ x @ zerosM (nat Lpad) nModes))"

text \<open>\<^verbatim>\<open>np.fix\<close> rounds towards zero.\<close>

definition npFix :: "real \<Rightarrow> int" where
  "npFix r = (if 0 \<le> r then \<lfloor>r\<rfloor> else \<lceil>r\<rceil>)"

text \<open>
  \<^verbatim>\<open>if not L: L = [int(np.fix((len(x)-nTaps)/SpS+1))]\<close>, for the padded \<open>x\<close>. The
  operands of \<^verbatim>\<open>/\<close> are Python integers: a zero divisor raises.
\<close>

definition outputLength :: "int list \<Rightarrow> nat \<Rightarrow> int \<Rightarrow> int \<Rightarrow> error + int list" where
  "outputLength L lenx nTaps SpS =
     (if L = [] then
        (if SpS = 0 then Inl ZeroDivisionError
         else Inr [npFix (real_of_int (int lenx - nTaps) / real_of_int SpS + 1)])
      else Inr L)"

text \<open>
  \<^verbatim>\<open>for initH in range(0, nModes):\<close>
  \<^verbatim>\<open>    H[initH + initH*nModes, int(np.floor(H.shape[1]/2))] = 1\<close>
\<close>

fun spikeLoop :: "nat \<Rightarrow> nat list \<Rightarrow> cnum list list \<Rightarrow> error + cnum list list" where
  "spikeLoop nModes [] H = Inr H"
| "spikeLoop nModes (initH # rest) H =
     (case pyIndex (length H) (int (initH + initH * nModes)) of Inl e \<Rightarrow> Inl e
      | Inr r \<Rightarrow>
     (case pyIndex (shape1 H) (int (shape1 H) div 2) of Inl e \<Rightarrow> Inl e
      | Inr c \<Rightarrow> spikeLoop nModes rest (H[r := (H ! r)[c := Some 1]])))"

text \<open>\<^verbatim>\<open>if len(H) == 0:\<close> the taps start from the central spike.\<close>

definition initialTaps :: "cnum list list \<Rightarrow> nat \<Rightarrow> int \<Rightarrow> error + cnum list list" where
  "initialTaps H nModes nTaps =
     (if length H = 0
      then (if nTaps < 0 then Inl ValueError
            else spikeLoop nModes [0..<nModes] (zerosM (nModes ^ 2) (nat nTaps)))
      else Inr H)"

text \<open>
  The training loop \<^verbatim>\<open>for indIter in range(0, numIter)\<close>: each pass starts from the
  taps of the pass before; the values returned are those of the last pass, and after no
  pass at all \<^verbatim>\<open>yEq\<close> is unbound at the \<^verbatim>\<open>return\<close>.
\<close>

fun trainLoop ::
  "(cnum list list \<Rightarrow> error + eqState) \<Rightarrow> nat \<Rightarrow> cnum list list \<Rightarrow> eqState option
     \<Rightarrow> error + eqState" where
  "trainLoop run 0 H res = (case res of None \<Rightarrow> Inl UnboundLocalError | Some r \<Rightarrow> Inr r)"
| "trainLoop run (Suc n) H res =
     (case run H of Inl e \<Rightarrow> Inl e
      | Inr (yEq, H', errSq, Hiter) \<Rightarrow> trainLoop run n H' (Some (yEq, H', errSq, Hiter)))"

text \<open>
  Everything \<^verbatim>\<open>mimoAdaptEqualizer\<close> does before the training loop: the reference
  defaults to the samples, both are laid out in columns, the samples are padded, the
  output length and the taps get their defaults. The result is
  \<open>(x, dx, L, H)\<close> as the loop receives them.
\<close>

definition prepare ::
  "cnum ndarray \<Rightarrow> cnum ndarray \<Rightarrow> paramEq
     \<Rightarrow> error + (cnum list list \<times> cnum list list \<times> int list \<times> cnum list list)" where
  "prepare x dx p =
     (let dx1 = (if len dx = 0 then x else dx);
          xc = asColumns x;
          dxc = asColumns dx1;
          nModes = shape1 xc
      in
     (case padSignal (p_nTaps p) xc of Inl e \<Rightarrow> Inl e
      | Inr xp \<Rightarrow>
     (case outputLength (p_L p) (length xp) (p_nTaps p) (p_SpS p) of Inl e \<Rightarrow> Inl e
      | Inr L \<Rightarrow>
     (case initialTaps (p_H p) nModes (p_nTaps p) of Inl e \<Rightarrow> Inl e
      | Inr H \<Rightarrow> Inr (xp, dxc, L, H)))))"

definition mimoAdaptEqualizer :: "cnum ndarray \<Rightarrow> cnum ndarray \<Rightarrow> paramEq \<Rightarrow> error + eqState" where
  "mimoAdaptEqualizer x dx p =
     (case prepare x dx p of Inl e \<Rightarrow> Inl e
      | Inr (xp, dxc, L, H) \<Rightarrow>
          trainLoop
            (\<lambda>H'. case p_alg p of [] \<Rightarrow> Inl IndexError
                  | a # _ \<Rightarrow>
                      coreAdaptEq xp dxc (p_SpS p) H' (hd L) (p_mu p) (p_nTaps p)
                        (p_storeCoeff p) a (p_constSymb p))
            (nat (p_numIter p)) H None)"

section \<open>The behaviour stated in closed form\<close>

text \<open>
  The squared norm of a window column: the sum of the squared moduli of its cells.
\<close>

definition energy :: "cnum list \<Rightarrow> rnum" where
  "energy c = rsum (map (\<lambda>a. rsq (nabs a)) c)"







text \<open>
  The identity start: one at the centre tap \<open>nTaps div 2\<close> of every row whose output
  mode \<open>r mod nModes\<close> is its input mode \<open>r div nModes\<close>, zero everywhere else.
\<close>

definition identityTaps :: "nat \<Rightarrow> nat \<Rightarrow> cnum list list" where
  "identityTaps nModes nTaps =
     map (\<lambda>r. map (\<lambda>k. if r mod nModes = r div nModes \<and> k = nTaps div 2 then Some 1 else Some 0)
                [0..<nTaps])
         [0..<nModes * nModes]"









section \<open>Lemmas on the array operations\<close>


lemma mapE_length: "mapE f xs = Inr ys \<Longrightarrow> length ys = length xs"
  by (induction xs arbitrary: ys) (auto split: sum.splits)

lemma pyIndex_nat: "i < n \<Longrightarrow> pyIndex n (int i) = Inr i"
  by (simp add: pyIndex_def)

















lemma shape1_nonempty: "A \<noteq> [] \<Longrightarrow> list_all (\<lambda>r. length r = c) A \<Longrightarrow> shape1 A = c"
  by (cases A) (auto simp: shape1_def)























lemma div_less_square: "0 < (n::nat) \<Longrightarrow> (r div n < n) = (r < n * n)"
  by (simp add: div_less_iff_less_mult)












text \<open>Unfolding sets for evaluating the model on concrete arrays.\<close>

lemmas arith_defs = nadd_def nsub_def nmul_def ncnj_def nabs_def rsq_def rsub_def rdiv_def
  ofr_def ndivr_def nsum_def rsum_def rmean_def vnorm_def energy_def

lemmas arr_defs = shape1_def pyIndex_def takeRows_def column_def diagM_def matmul_def
  matvec_def bsub_def indUpdTaps_def expandPar_def scaleM_def addInc_def assignRows_def
  tapStep_def absSq_def nlmsNormalize_def

section \<open>Lemmas on the core loop\<close>

lemma update_dx_indep:
  "a \<noteq> NLMS \<Longrightarrow> update a w dx ind constSymb outEq mu H nModes
                   = update a w dx' ind constSymb outEq mu H nModes"
  by (cases a) (simp_all add: update_def)

lemma coreStep_dx_indep:
  assumes "a \<noteq> NLMS"
  shows "coreStep x dx SpS mu nTaps storeCoeff a constSymb
           = coreStep x dx' SpS mu nTaps storeCoeff a constSymb"
proof -
  have u: "\<And>w ind outEq H nModes. update a w dx ind constSymb outEq mu H nModes
              = update a w dx' ind constSymb outEq mu H nModes"
    using assms by (rule update_dx_indep)
  show ?thesis by (intro ext) (simp only: coreStep_def u)
qed

lemma coreAdaptEq_dx_indep:
  assumes "a \<noteq> NLMS"
  shows "coreAdaptEq x dx SpS H L mu nTaps storeCoeff a constSymb
           = coreAdaptEq x dx' SpS H L mu nTaps storeCoeff a constSymb"
  by (simp only: coreAdaptEq_def coreStep_dx_indep [OF assms, of x dx SpS mu nTaps storeCoeff constSymb dx'])

lemmas core_defs = coreAdaptEq_def coreStep_def update_def storeTaps_def hasShape_def zerosM_def
  indIn_def Rcma_def Rrde_def cmaUp_def cmaErr_def nlmsUp_def nlmsErr_def

lemma storeTaps_index_one: "length Hiter = 1 \<Longrightarrow> storeTaps Hiter 1 r c H = Inl IndexError"
  by (simp add: storeTaps_def pyIndex_def)

lemma coreStep_no_history:
  "length Hiter = 1 \<Longrightarrow>
     \<exists>e. coreStep x dx SpS mu nTaps False a constSymb ind (yEq, H, errSq, Hiter) = Inl e"
  by (simp add: coreStep_def storeTaps_index_one Let_def split: sum.splits prod.splits)

lemma coreAdaptEq_no_history_fails:
  assumes "0 < L"
  shows "\<exists>e. coreAdaptEq x dx SpS H L mu nTaps False a constSymb = Inl e"
proof (cases "nTaps < 0")
  case True
  then show ?thesis by (simp add: coreAdaptEq_def)
next
  case False
  have u: "[0..<nat L] = 0 # [1..<nat L]" using assms by (simp add: upt_rec)
  obtain e where "coreStep x dx SpS mu nTaps False a constSymb 0
        (map (map (\<lambda>_. None)) (take (nat L) x), H, [], [zerosM ((shape1 x)\<^sup>2) (nat nTaps)]) = Inl e"
    using coreStep_no_history [of "[zerosM ((shape1 x)\<^sup>2) (nat nTaps)]" x dx SpS mu nTaps a
        constSymb 0 "map (map (\<lambda>_. None)) (take (nat L) x)" H "[]"]
    by auto
  then show ?thesis using False assms by (simp add: coreAdaptEq_def u)
qed


































section \<open>Lemmas on the driver\<close>

lemma hasShape_update:
  assumes "hasShape R T H"
  shows "hasShape R T (H[r := (H ! r)[c := v]])"
proof (cases "r < length H")
  case True
  then show ?thesis using assms
    by (auto simp: hasShape_def list_all_length nth_list_update)
next
  case False
  then have "H[r := (H ! r)[c := v]] = H" by (simp add: list_update_beyond not_less)
  then show ?thesis using assms by simp
qed

lemma spikeLoop_ok:
  assumes T: "0 < T"
  shows "hasShape R T H \<Longrightarrow> (\<And>i. i \<in> set js \<Longrightarrow> i + i * nModes < R)
     \<Longrightarrow> \<exists>H'. spikeLoop nModes js H = Inr H' \<and> hasShape R T H'
           \<and> (\<forall>r<R. \<forall>k<T. H' ! r ! k
                = (if (\<exists>i\<in>set js. r = i + i * nModes) \<and> k = T div 2 then Some 1 else H ! r ! k))"
proof (induction js arbitrary: H)
  case Nil
  then show ?case by simp
next
  case (Cons i js)
  let ?r = "i + i * nModes"
  let ?c = "T div 2"
  let ?H1 = "H[?r := (H ! ?r)[?c := Some 1]]"
  have r: "?r < R" using Cons.prems(2) by simp
  have lenH: "length H = R" using Cons.prems(1) by (simp add: hasShape_def)
  have ne: "H \<noteq> []" using r lenH by auto
  have s: "shape1 H = T"
    using ne Cons.prems(1) by (intro shape1_nonempty) (auto simp: hasShape_def)
  have c: "?c < T" using T by simp
  have p1: "pyIndex (length H) (int ?r) = Inr ?r"
    using pyIndex_nat [of ?r "length H"] r lenH by simp
  have "int T div 2 = int ?c" by (simp add: zdiv_int)
  then have p2: "pyIndex (shape1 H) (int (shape1 H) div 2) = Inr ?c"
    using c s by (simp add: pyIndex_nat)
  have sh1: "hasShape R T ?H1" using Cons.prems(1) by (rule hasShape_update)
  obtain H' where H': "spikeLoop nModes js ?H1 = Inr H'" "hasShape R T H'"
    and ent: "\<forall>r<R. \<forall>k<T. H' ! r ! k
                = (if (\<exists>i\<in>set js. r = i + i * nModes) \<and> k = T div 2 then Some 1 else ?H1 ! r ! k)"
    using Cons.IH [OF sh1] Cons.prems(2) by auto
  have step: "spikeLoop nModes (i # js) H = Inr H'"
    using p1 p2 H'(1) by simp
  have rowlen: "length (H ! q) = T" if "q < R" for q
    using that Cons.prems(1) by (simp add: hasShape_def list_all_length)
  have "H' ! q ! k = (if (\<exists>i\<in>set (i # js). q = i + i * nModes) \<and> k = T div 2 then Some 1 else H ! q ! k)"
    if q: "q < R" and k: "k < T" for q k
  proof -
    have h1: "?H1 ! q ! k = (if q = ?r \<and> k = ?c then Some 1 else H ! q ! k)"
    proof (cases "q = ?r")
      case True
      then show ?thesis using q k lenH rowlen [OF q] by (simp add: nth_list_update)
    next
      case False
      then show ?thesis using q lenH by simp
    qed
    show ?thesis using ent q k h1 by auto
  qed
  then show ?case using step H'(2) by blast
qed

lemma self_row_iff:
  assumes "0 < (n::nat)" "r < n * n"
  shows "(\<exists>i\<in>set [0..<n]. r = i + i * n) = (r mod n = r div n)"
proof
  assume "\<exists>i\<in>set [0..<n]. r = i + i * n"
  then obtain i where i: "i < n" "r = i + i * n" by auto
  then show "r mod n = r div n" by simp
next
  assume h: "r mod n = r div n"
  have "r = r div n * n + r mod n" by simp
  then have "r = r div n + r div n * n" using h by simp
  moreover have "r div n < n" using assms by (simp add: div_less_square)
  ultimately show "\<exists>i\<in>set [0..<n]. r = i + i * n" by auto
qed

lemma initialTaps_default:
  assumes "0 < nTaps"
  shows "initialTaps [] nModes nTaps = Inr (identityTaps nModes (nat nTaps))"
proof (cases "nModes = 0")
  case True
  then show ?thesis using assms by (simp add: initialTaps_def identityTaps_def zerosM_def)
next
  case False
  then have n: "0 < nModes" by simp
  let ?T = "nat nTaps"
  let ?R = "nModes * nModes"
  have T: "0 < ?T" using assms by simp
  have sh: "hasShape ?R ?T (zerosM ?R ?T)"
    by (simp add: hasShape_def zerosM_def list_all_iff)
  have idx: "\<And>i. i \<in> set [0..<nModes] \<Longrightarrow> i + i * nModes < ?R"
  proof -
    fix i assume "i \<in> set [0..<nModes]"
    then have i: "Suc i \<le> nModes" by simp
    have "i + i * nModes < nModes + i * nModes" using i by simp
    also have "\<dots> = Suc i * nModes" by simp
    also have "\<dots> \<le> nModes * nModes" using i by (rule mult_le_mono1)
    finally show "i + i * nModes < ?R" .
  qed
  obtain H' where H': "spikeLoop nModes [0..<nModes] (zerosM ?R ?T) = Inr H'" "hasShape ?R ?T H'"
    and ent: "\<forall>r<?R. \<forall>k<?T. H' ! r ! k
          = (if (\<exists>i\<in>set [0..<nModes]. r = i + i * nModes) \<and> k = ?T div 2 then Some 1
             else zerosM ?R ?T ! r ! k)"
    using spikeLoop_ok [OF T sh idx] by blast
  have "H' = identityTaps nModes ?T"
  proof (rule nth_equalityI)
    show "length H' = length (identityTaps nModes ?T)"
      using H'(2) by (simp add: hasShape_def identityTaps_def)
  next
    fix r assume "r < length H'"
    then have r: "r < ?R" using H'(2) by (simp add: hasShape_def)
    have l: "length (H' ! r) = ?T" using H'(2) r by (simp add: hasShape_def list_all_length)
    show "H' ! r = identityTaps nModes ?T ! r"
    proof (rule nth_equalityI)
      show "length (H' ! r) = length (identityTaps nModes ?T ! r)"
        using l r by (simp add: identityTaps_def)
    next
      fix k assume "k < length (H' ! r)"
      then have k: "k < ?T" using l by simp
      have "H' ! r ! k = (if (\<exists>i\<in>set [0..<nModes]. r = i + i * nModes) \<and> k = ?T div 2 then Some 1
             else zerosM ?R ?T ! r ! k)"
        using ent r k by blast
      also have "\<dots> = (if r mod nModes = r div nModes \<and> k = ?T div 2 then Some 1 else Some 0)"
        using self_row_iff [OF n r] r k by (simp add: zerosM_def)
      also have "\<dots> = identityTaps nModes ?T ! r ! k"
        using r k by (simp add: identityTaps_def)
      finally show "H' ! r ! k = identityTaps nModes ?T ! r ! k" .
    qed
  qed
  then show ?thesis using H'(1) assms by (simp add: initialTaps_def power2_eq_square)
qed


lemma identityTaps_shape: "hasShape (nModes * nModes) nTaps (identityTaps nModes nTaps)"
  by (simp add: hasShape_def identityTaps_def list_all_iff)

lemma identityTaps_nth:
  assumes "j < nModes" "N < nModes" "k < nTaps"
  shows "identityTaps nModes nTaps ! (j + N * nModes) ! k
           = (if j = N \<and> k = nTaps div 2 then Some 1 else Some 0)"
proof -
  have "Suc N \<le> nModes" using assms(2) by simp
  then have "Suc N * nModes \<le> nModes * nModes" by (rule mult_le_mono1)
  then have r: "j + N * nModes < nModes * nModes" using assms(1) by simp
  have "(j + N * nModes) mod nModes = j" "(j + N * nModes) div nModes = N"
    using assms(1) by simp_all
  then show ?thesis using r assms(3) by (simp add: identityTaps_def)
qed

lemma initialTaps_empty_Inr:
  assumes "initialTaps [] nModes nTaps = Inr H"
  shows "H = identityTaps nModes (nat nTaps)"
proof (cases "0 < nTaps")
  case True
  then show ?thesis using assms initialTaps_default [OF True, of nModes] by simp
next
  case False
  show ?thesis
  proof (cases "nModes = 0")
    case True
    then show ?thesis using assms False
      by (simp add: initialTaps_def identityTaps_def zerosM_def split: if_splits)
  next
    case n: False
    have z: "nTaps = 0" using assms False by (simp add: initialTaps_def split: if_splits)
    have u: "[0..<nModes] = 0 # [1..<nModes]" using n by (simp add: upt_rec)
    have "zerosM (nModes\<^sup>2) 0 \<noteq> []" using n by (simp add: zerosM_def)
    then have "shape1 (zerosM (nModes\<^sup>2) 0) = 0"
      by (intro shape1_nonempty) (simp_all add: zerosM_def list_all_iff)
    then have "spikeLoop nModes [0..<nModes] (zerosM (nModes\<^sup>2) 0) = Inl IndexError"
      using n by (simp add: u pyIndex_def zerosM_def)
    then show ?thesis using assms z by (simp add: initialTaps_def)
  qed
qed

lemma prepare_Inr:
  assumes "prepare x dx p = Inr (xp, dxc, L, H)"
  shows "0 \<le> p_nTaps p"
    and "xp = zerosM (nat (p_nTaps p div 2)) (shape1 (asColumns x)) @ asColumns x
               @ zerosM (nat (p_nTaps p div 2)) (shape1 (asColumns x))"
    and "dxc = asColumns (if len dx = 0 then x else dx)"
    and "outputLength (p_L p) (length xp) (p_nTaps p) (p_SpS p) = Inr L"
    and "initialTaps (p_H p) (shape1 (asColumns x)) (p_nTaps p) = Inr H"
  using assms
  by (auto simp: prepare_def padSignal_def Let_def split: sum.splits if_splits)

lemma outputLength_total:
  "L \<noteq> [] \<or> SpS \<noteq> 0 \<Longrightarrow> \<exists>L'. outputLength L lenx nTaps SpS = Inr L'"
  by (cases "L = []") (simp_all add: outputLength_def)

lemma prepare_total:
  assumes "0 \<le> p_nTaps p" "p_L p \<noteq> [] \<or> p_SpS p \<noteq> 0" "p_H p \<noteq> [] \<or> 0 < p_nTaps p"
  shows "\<exists>xp dxc L H. prepare x dx p = Inr (xp, dxc, L, H)"
proof -
  have a: "0 \<le> p_nTaps p div 2" using assms(1) by simp
  obtain L where L: "outputLength (p_L p)
      (length (zerosM (nat (p_nTaps p div 2)) (shape1 (asColumns x)) @ asColumns x
               @ zerosM (nat (p_nTaps p div 2)) (shape1 (asColumns x)))) (p_nTaps p) (p_SpS p) = Inr L"
    using outputLength_total [OF assms(2)] by blast
  obtain H where H: "initialTaps (p_H p) (shape1 (asColumns x)) (p_nTaps p) = Inr H"
  proof (cases "p_H p = []")
    case True
    then have "0 < p_nTaps p" using assms(3) by simp
    then show ?thesis using that True initialTaps_default by simp
  next
    case False
    then show ?thesis using that by (simp add: initialTaps_def)
  qed
  show ?thesis using a L H by (simp add: prepare_def padSignal_def Let_def)
qed


lemma ex_prepare:
  "prepare (Arr2 [[Some 1, Some 2], [Some 3, Some 4], [Some 5, Some 6]]) (Arr1 [])
       \<lparr>p_numIter = 1, p_nTaps = 3, p_mu = 1, p_SpS = 2, p_H = [], p_L = [],
        p_storeCoeff = True, p_alg = [NLMS], p_constSymb = [1]\<rparr>
     = Inr ([[Some 0, Some 0], [Some 1, Some 2], [Some 3, Some 4], [Some 5, Some 6], [Some 0, Some 0]],
            [[Some 1, Some 2], [Some 3, Some 4], [Some 5, Some 6]],
            [2],
            [[Some 0, Some 1, Some 0], [Some 0, Some 0, Some 0],
             [Some 0, Some 0, Some 0], [Some 0, Some 1, Some 0]])"
proof -
  have u: "[0..<4] = [0, 1, 2, 3]" "[0..<3] = [0, 1, 2]" by (simp_all add: upt_rec)
  have i: "initialTaps [] 2 3 = Inr [[Some 0, Some 1, Some 0], [Some 0, Some 0, Some 0],
             [Some 0, Some 0, Some 0], [Some 0, Some 1, Some 0]]"
    by (simp add: initialTaps_default identityTaps_def u)
  have i': "initialTaps [] (Suc (Suc 0)) 3 = Inr [[Some 0, Some 1, Some 0], [Some 0, Some 0, Some 0],
             [Some 0, Some 0, Some 0], [Some 0, Some 1, Some 0]]"
    using i by (simp only: numeral_2_eq_2)
  show ?thesis
    by (simp add: prepare_def padSignal_def outputLength_def npFix_def asColumns_def len_def
        shape1_def zerosM_def i')
qed

lemma mimo_unfold:
  "mimoAdaptEqualizer x dx p =
     (case padSignal (p_nTaps p) (asColumns x) of Inl e \<Rightarrow> Inl e
      | Inr xp \<Rightarrow>
     (case outputLength (p_L p) (length xp) (p_nTaps p) (p_SpS p) of Inl e \<Rightarrow> Inl e
      | Inr L \<Rightarrow>
     (case initialTaps (p_H p) (shape1 (asColumns x)) (p_nTaps p) of Inl e \<Rightarrow> Inl e
      | Inr H \<Rightarrow>
          trainLoop
            (\<lambda>H'. case p_alg p of [] \<Rightarrow> Inl IndexError
                  | a # _ \<Rightarrow>
                      coreAdaptEq xp (asColumns (if len dx = 0 then x else dx)) (p_SpS p) H' (hd L)
                        (p_mu p) (p_nTaps p) (p_storeCoeff p) a (p_constSymb p))
            (nat (p_numIter p)) H None)))"
  by (simp add: mimoAdaptEqualizer_def prepare_def Let_def split: sum.splits)

lemma mimo_dx_indep:
  assumes "p_alg p = a # rest" "a \<noteq> NLMS"
  shows "mimoAdaptEqualizer x dx p = mimoAdaptEqualizer x dx' p"
proof -
  have run: "(\<lambda>H'. coreAdaptEq xp d1 (p_SpS p) H' l (p_mu p) (p_nTaps p) (p_storeCoeff p) a (p_constSymb p))
           = (\<lambda>H'. coreAdaptEq xp d2 (p_SpS p) H' l (p_mu p) (p_nTaps p) (p_storeCoeff p) a (p_constSymb p))"
    for xp d1 d2 l
    by (rule ext) (rule coreAdaptEq_dx_indep [OF assms(2)])
  show ?thesis
    unfolding mimo_unfold assms(1) list.case
    by (simp only: run [where ?d1.0 = "asColumns (if len dx = 0 then x else dx)"
                        and ?d2.0 = "asColumns (if len dx' = 0 then x else dx')"])
qed

lemma mimo_negative_taps:
  assumes "p_nTaps p < 0"
  shows "prepare x dx p = Inl ValueError" "mimoAdaptEqualizer x dx p = Inl ValueError"
proof -
  have "p_nTaps p div 2 < 0" using assms by simp
  then show "prepare x dx p = Inl ValueError"
    by (simp add: prepare_def padSignal_def Let_def)
  then show "mimoAdaptEqualizer x dx p = Inl ValueError"
    by (simp add: mimoAdaptEqualizer_def)
qed

lemma mimo_zero_taps:
  assumes "p_nTaps p = 0" "p_H p = []" "0 < shape1 (asColumns x)"
  shows "\<exists>e. prepare x dx p = Inl e" "\<exists>e. mimoAdaptEqualizer x dx p = Inl e"
proof -
  show p: "\<exists>e. prepare x dx p = Inl e"
  proof (cases "prepare x dx p")
    case (Inl e) then show ?thesis by simp
  next
    case (Inr r)
    obtain xp dxc L H where r: "r = (xp, dxc, L, H)" by (cases r) auto
    have i: "initialTaps [] (shape1 (asColumns x)) 0 = Inr H"
      using prepare_Inr(5) [OF Inr [unfolded r]] assms by simp
    then have "H = identityTaps (shape1 (asColumns x)) (nat 0)" by (rule initialTaps_empty_Inr)
    moreover have "initialTaps [] (shape1 (asColumns x)) 0 = Inl IndexError"
    proof -
      let ?n = "shape1 (asColumns x)"
      have u: "[0..<?n] = 0 # [1..<?n]" using assms(3) by (simp add: upt_rec)
      have "zerosM (?n\<^sup>2) 0 \<noteq> []" using assms(3) by (simp add: zerosM_def)
      then have "shape1 (zerosM (?n\<^sup>2) 0) = 0"
        by (intro shape1_nonempty) (simp_all add: zerosM_def list_all_iff)
      then have "spikeLoop ?n [0..<?n] (zerosM (?n\<^sup>2) 0) = Inl IndexError"
        using assms(3) by (simp add: u pyIndex_def zerosM_def)
      then show ?thesis by (simp add: initialTaps_def)
    qed
    ultimately show ?thesis using i by simp
  qed
  then show "\<exists>e. mimoAdaptEqualizer x dx p = Inl e"
    by (auto simp: mimoAdaptEqualizer_def)
qed


lemma ex_cma_init: "initialTaps [] (Suc 0) 1 = Inr [[Some 1]]"
proof -
  have "initialTaps [] 1 1 = Inr (identityTaps 1 (nat 1))" by (rule initialTaps_default) simp
  then show ?thesis by (simp add: identityTaps_def)
qed

lemma ex_cma_core:
  "coreAdaptEq [[Some 2]] d 1 [[Some 1]] 1 (- 1) 1 True CMA [1]
     = Inr ([[Some 2]], [[Some 13]], [[Some 9]], [[[Some 13]]])"
  by (simp add: core_defs arith_defs arr_defs)










lemma ex_cma_mimo:
  "mimoAdaptEqualizer (Arr1 [Some 2])
       (Arr2 [[Some 1, Some 2], [Some 3, Some 4], [Some 5, Some 6]])
       \<lparr>p_numIter = 1, p_nTaps = 1, p_mu = - 1, p_SpS = 1, p_H = [], p_L = [],
        p_storeCoeff = True, p_alg = [CMA], p_constSymb = [1]\<rparr>
     = Inr ([[Some 2]], [[Some 13]], [[Some 9]], [[[Some 13]]])"
  by (simp add: mimo_unfold padSignal_def outputLength_def npFix_def asColumns_def len_def
      shape1_def zerosM_def ex_cma_init ex_cma_core)


section \<open>The tap-update rules\<close>







section \<open>The core adaptation engine\<close>

text \<open>
  Claim C10: two runs of \<^verbatim>\<open>coreAdaptEq\<close> under CMA, DDLMS or RDE that differ in the
  reference \<open>dx\<close> only have the same result: the same exception, or the same output
  stream, taps, error trace and tap history.
\<close>

theorem reference_ignored_by_blind_rules:
  assumes "a = CMA \<or> a = DDLMS \<or> a = RDE"
  shows "coreAdaptEq x dx SpS H L mu nTaps storeCoeff a constSymb
           = coreAdaptEq x dx' SpS H L mu nTaps storeCoeff a constSymb"
  using assms by (intro coreAdaptEq_dx_indep) auto

theorem reference_ignored_by_blind_rules_witness:
  "(CMA = CMA \<or> CMA = DDLMS \<or> CMA = RDE)
   \<and> coreAdaptEq [[Some 1], [Some 2]] [[Some 5]] 1 [[Some 1]] 2 1 1 True CMA [1]
       = coreAdaptEq [[Some 1], [Some 2]] [[Some 7, Some 8]] 1 [[Some 1]] 2 1 1 True CMA [1]
   \<and> coreAdaptEq [[Some 1], [Some 2]] [[Some 7, Some 8]] 1 [[Some 1]] 2 1 1 True CMA [1]
       = Inr ([[Some 1], [Some 2]], [[Some (- 11)]], [[Some 0], [Some 9]],
              [[[Some 1]], [[Some (- 11)]]])"
proof -
  have h: "CMA = CMA \<or> CMA = DDLMS \<or> CMA = RDE" by simp
  have v: "coreAdaptEq [[Some 1], [Some 2]] [[Some 5]] 1 [[Some 1]] 2 1 1 True CMA [1]
       = Inr ([[Some 1], [Some 2]], [[Some (- 11)]], [[Some 0], [Some 9]],
              [[[Some 1]], [[Some (- 11)]]])"
    by (simp add: core_defs arith_defs arr_defs upt_rec numeral_2_eq_2)
  show ?thesis
    using h v reference_ignored_by_blind_rules [OF h, of "[[Some 1], [Some 2]]" "[[Some 5]]" 1
        "[[Some 1]]" 2 1 1 True "[1]" "[[Some 7, Some 8]]"]
    by simp
qed



text \<open>
  Claim C3 fails on the code. Without \<^verbatim>\<open>storeCoeff\<close> the history \<^verbatim>\<open>Hiter\<close> has one
  position on its last axis, position \<open>0\<close>, and the loop writes \<^verbatim>\<open>Hiter[:,:, 1] = H\<close>:
  position \<open>1\<close> is out of bounds, so the first iteration raises and no history is
  returned. The run below is a two-symbol CMA pass over one mode.
\<close>

theorem tap_history_write_out_of_bounds:
  "coreAdaptEq [[Some 1], [Some 2]] [[Some 5]] 1 [[Some 1]] 2 1 1 False CMA [1] = Inl IndexError"
  by (simp add: core_defs arith_defs arr_defs upt_rec numeral_2_eq_2)

section \<open>The equalizer driver\<close>

text \<open>
  Claim C6: in a call without initial taps (\<^verbatim>\<open>H\<close> undefined), whenever the preparation
  of the driver succeeds, the tap matrix handed to the first pass has \<open>nModes\<^sup>2\<close> rows of
  \<open>nTaps\<close> taps, and the row for output mode \<open>j\<close> and input mode \<open>N\<close> holds one at the
  centre tap \<open>nTaps div 2\<close> when \<open>j = N\<close> and zero everywhere else. The preparation does
  succeed for a positive \<open>nTaps\<close> when the output length is given or \<open>SpS\<close> is not zero.
\<close>

theorem identity_start:
  assumes "p_H p = []"
  shows "(\<forall>xp dxc L H. prepare x dx p = Inr (xp, dxc, L, H) \<longrightarrow>
            hasShape (shape1 (asColumns x) * shape1 (asColumns x)) (nat (p_nTaps p)) H
            \<and> (\<forall>j < shape1 (asColumns x). \<forall>N < shape1 (asColumns x). \<forall>k < nat (p_nTaps p).
                  H ! (j + N * shape1 (asColumns x)) ! k
                    = (if j = N \<and> k = nat (p_nTaps p) div 2 then Some 1 else Some 0)))
       \<and> (0 < p_nTaps p \<and> (p_L p \<noteq> [] \<or> p_SpS p \<noteq> 0) \<longrightarrow>
            (\<exists>xp dxc L H. prepare x dx p = Inr (xp, dxc, L, H)))"
proof (intro conjI allI impI)
  fix xp dxc L H assume pr: "prepare x dx p = Inr (xp, dxc, L, H)"
  have "initialTaps [] (shape1 (asColumns x)) (p_nTaps p) = Inr H"
    using prepare_Inr(5) [OF pr] assms by simp
  then have H: "H = identityTaps (shape1 (asColumns x)) (nat (p_nTaps p))"
    by (rule initialTaps_empty_Inr)
  show "hasShape (shape1 (asColumns x) * shape1 (asColumns x)) (nat (p_nTaps p)) H"
    unfolding H by (rule identityTaps_shape)
  fix j N k assume "j < shape1 (asColumns x)" "N < shape1 (asColumns x)" "k < nat (p_nTaps p)"
  then show "H ! (j + N * shape1 (asColumns x)) ! k
                    = (if j = N \<and> k = nat (p_nTaps p) div 2 then Some 1 else Some 0)"
    unfolding H by (rule identityTaps_nth)
next
  assume "0 < p_nTaps p \<and> (p_L p \<noteq> [] \<or> p_SpS p \<noteq> 0)"
  then show "\<exists>xp dxc L H. prepare x dx p = Inr (xp, dxc, L, H)"
    by (intro prepare_total) auto
qed

theorem identity_start_witness:
  "p_H \<lparr>p_numIter = 1, p_nTaps = 3, p_mu = 1, p_SpS = 2, p_H = [], p_L = [],
        p_storeCoeff = True, p_alg = [NLMS], p_constSymb = [1]\<rparr> = []
   \<and> prepare (Arr2 [[Some 1, Some 2], [Some 3, Some 4], [Some 5, Some 6]]) (Arr1 [])
       \<lparr>p_numIter = 1, p_nTaps = 3, p_mu = 1, p_SpS = 2, p_H = [], p_L = [],
        p_storeCoeff = True, p_alg = [NLMS], p_constSymb = [1]\<rparr>
     = Inr ([[Some 0, Some 0], [Some 1, Some 2], [Some 3, Some 4], [Some 5, Some 6], [Some 0, Some 0]],
            [[Some 1, Some 2], [Some 3, Some 4], [Some 5, Some 6]],
            [2],
            [[Some 0, Some 1, Some 0], [Some 0, Some 0, Some 0],
             [Some 0, Some 0, Some 0], [Some 0, Some 1, Some 0]])
   \<and> hasShape (2 * 2) 3 [[Some 0, Some 1, Some 0], [Some 0, Some 0, Some (0::complex)],
             [Some 0, Some 0, Some 0], [Some 0, Some 1, Some 0]]"
proof -
  let ?p = "\<lparr>p_numIter = 1, p_nTaps = 3, p_mu = 1, p_SpS = 2, p_H = [], p_L = [],
        p_storeCoeff = True, p_alg = [NLMS], p_constSymb = [1]\<rparr>"
  let ?x = "Arr2 [[Some 1, Some 2], [Some 3, Some 4], [Some 5, Some (6::complex)]]"
  have h: "p_H ?p = []" by simp
  have s: "shape1 (asColumns ?x) = 2" by (simp add: asColumns_def shape1_def)
  have "\<forall>xp dxc L H. prepare ?x (Arr1 []) ?p = Inr (xp, dxc, L, H) \<longrightarrow>
            hasShape (shape1 (asColumns ?x) * shape1 (asColumns ?x)) (nat (p_nTaps ?p)) H
            \<and> (\<forall>j < shape1 (asColumns ?x). \<forall>N < shape1 (asColumns ?x). \<forall>k < nat (p_nTaps ?p).
                  H ! (j + N * shape1 (asColumns ?x)) ! k
                    = (if j = N \<and> k = nat (p_nTaps ?p) div 2 then Some 1 else Some 0))"
    using identity_start [OF h, of ?x "Arr1 []"] by (rule conjunct1)
  from this [rule_format, OF ex_prepare]
  have "hasShape (shape1 (asColumns ?x) * shape1 (asColumns ?x)) (nat (p_nTaps ?p))
          [[Some 0, Some 1, Some 0], [Some 0, Some 0, Some (0::complex)],
           [Some 0, Some 0, Some 0], [Some 0, Some 1, Some 0]]"
    by (rule conjunct1)
  then show ?thesis using h ex_prepare by (simp add: s)
qed



text \<open>
  Claim C2, as stated, fails: the driver validates nothing. A call with one mode in the
  samples, two modes in the reference and \<open>mu = -1\<close> returns normally under CMA.
\<close>

theorem driver_accepts_mismatch_and_negative_mu:
  "mimoAdaptEqualizer (Arr1 [Some 2])
       (Arr2 [[Some 1, Some 2], [Some 3, Some 4], [Some 5, Some 6]])
       \<lparr>p_numIter = 1, p_nTaps = 1, p_mu = - 1, p_SpS = 1, p_H = [], p_L = [],
        p_storeCoeff = True, p_alg = [CMA], p_constSymb = [1]\<rparr>
     = Inr ([[Some 2]], [[Some 13]], [[Some 9]], [[[Some 13]]])"
  by (rule ex_cma_mimo)

text \<open>
  Claim C2, amended: a negative \<open>nTaps\<close> makes the call fail with \<^verbatim>\<open>ValueError\<close>, raised
  when the zero padding is allocated; \<open>nTaps = 0\<close> without initial taps and with at least
  one mode makes it fail while the defaults are prepared; in both cases before any
  equalization. The mode count of the reference is not checked: under an algorithm other
  than NLMS the reference does not influence the result of the call.
\<close>

theorem driver_checks:
  "(p_nTaps p < 0 \<longrightarrow>
      prepare x dx p = Inl ValueError \<and> mimoAdaptEqualizer x dx p = Inl ValueError)
   \<and> (p_nTaps p = 0 \<and> p_H p = [] \<and> 0 < shape1 (asColumns x) \<longrightarrow>
        (\<exists>e. prepare x dx p = Inl e) \<and> (\<exists>e. mimoAdaptEqualizer x dx p = Inl e))
   \<and> (\<forall>a rest dx'. p_alg p = a # rest \<and> a \<noteq> NLMS \<longrightarrow>
        mimoAdaptEqualizer x dx p = mimoAdaptEqualizer x dx' p)"
proof (intro conjI allI impI)
  assume "p_nTaps p < 0"
  then show "prepare x dx p = Inl ValueError" "mimoAdaptEqualizer x dx p = Inl ValueError"
    by (rule mimo_negative_taps)+
next
  assume h: "p_nTaps p = 0 \<and> p_H p = [] \<and> 0 < shape1 (asColumns x)"
  show "\<exists>e. prepare x dx p = Inl e" using h by (intro mimo_zero_taps(1)) auto
  show "\<exists>e. mimoAdaptEqualizer x dx p = Inl e" using h by (intro mimo_zero_taps(2)) auto
next
  fix a rest dx' assume "p_alg p = a # rest \<and> a \<noteq> NLMS"
  then show "mimoAdaptEqualizer x dx p = mimoAdaptEqualizer x dx' p"
    by (intro mimo_dx_indep [of p a rest]) auto
qed

theorem driver_checks_witness:
  "p_nTaps \<lparr>p_numIter = 1, p_nTaps = - 1, p_mu = 1, p_SpS = 1, p_H = [], p_L = [],
        p_storeCoeff = True, p_alg = [CMA], p_constSymb = [1]\<rparr> < 0
   \<and> mimoAdaptEqualizer (Arr1 [Some 2]) (Arr1 [])
        \<lparr>p_numIter = 1, p_nTaps = - 1, p_mu = 1, p_SpS = 1, p_H = [], p_L = [],
         p_storeCoeff = True, p_alg = [CMA], p_constSymb = [1]\<rparr> = Inl ValueError
   \<and> 0 < shape1 (asColumns (Arr1 [Some (2::complex)]))
   \<and> mimoAdaptEqualizer (Arr1 [Some 2]) (Arr1 [])
        \<lparr>p_numIter = 1, p_nTaps = 0, p_mu = 1, p_SpS = 1, p_H = [], p_L = [],
         p_storeCoeff = True, p_alg = [CMA], p_constSymb = [1]\<rparr> = Inl IndexError
   \<and> mimoAdaptEqualizer (Arr1 [Some 2]) (Arr1 [])
        \<lparr>p_numIter = 1, p_nTaps = 1, p_mu = - 1, p_SpS = 1, p_H = [], p_L = [],
         p_storeCoeff = True, p_alg = [CMA], p_constSymb = [1]\<rparr>
       = mimoAdaptEqualizer (Arr1 [Some 2])
           (Arr2 [[Some 1, Some 2], [Some 3, Some 4], [Some 5, Some 6]])
        \<lparr>p_numIter = 1, p_nTaps = 1, p_mu = - 1, p_SpS = 1, p_H = [], p_L = [],
         p_storeCoeff = True, p_alg = [CMA], p_constSymb = [1]\<rparr>"
proof -
  let ?x = "Arr1 [Some (2::complex)]"
  let ?p1 = "\<lparr>p_numIter = 1, p_nTaps = - 1, p_mu = 1, p_SpS = 1, p_H = [], p_L = [],
        p_storeCoeff = True, p_alg = [CMA], p_constSymb = [1]\<rparr>"
  let ?p2 = "\<lparr>p_numIter = 1, p_nTaps = 0, p_mu = 1, p_SpS = 1, p_H = [], p_L = [],
        p_storeCoeff = True, p_alg = [CMA], p_constSymb = [1]\<rparr>"
  let ?p3 = "\<lparr>p_numIter = 1, p_nTaps = 1, p_mu = - 1, p_SpS = 1, p_H = [], p_L = [],
        p_storeCoeff = True, p_alg = [CMA], p_constSymb = [1]\<rparr>"
  have h1: "p_nTaps ?p1 < 0" by simp
  have c1: "mimoAdaptEqualizer ?x (Arr1 []) ?p1 = Inl ValueError"
    using driver_checks [of ?p1 ?x "Arr1 []"] h1 by blast
  have h2: "0 < shape1 (asColumns ?x)" by (simp add: asColumns_def shape1_def)
  have c2: "mimoAdaptEqualizer ?x (Arr1 []) ?p2 = Inl IndexError"
    by (simp add: mimo_unfold padSignal_def outputLength_def npFix_def asColumns_def len_def
        shape1_def zerosM_def initialTaps_def pyIndex_def)
  have h3: "p_alg ?p3 = CMA # [] \<and> CMA \<noteq> NLMS" by simp
  have c3: "mimoAdaptEqualizer ?x (Arr1 []) ?p3
      = mimoAdaptEqualizer ?x (Arr2 [[Some 1, Some 2], [Some 3, Some 4], [Some 5, Some 6]]) ?p3"
    using driver_checks [of ?p3 ?x "Arr1 []"] h3 by blast
  show ?thesis using h1 c1 h2 c2 c3 by simp
qed

section \<open>Shapes\<close>



end
